theory Spec2Isabelle
  imports Main
begin

section \<open>Python strings and the regular expressions of \<open>people.py\<close>\<close>

text \<open>
  Strings are lists of 8-bit characters, read as code points below 256. On such strings
  Python's \<open>\d\<close> is the ten ASCII digits and \<open>re.I\<close> folds the letters of the two
  patterns with their ASCII capitals only. Code points from 256 on are outside the model;
  among them \<open>re.I\<close> also folds U+017F to \<open>s\<close> and U+0130 and U+0131 to \<open>i\<close>, and \<open>\d\<close>
  also matches the decimal digits of other scripts.
\<close>

definition newline :: char where
  "newline = CHR 0x0A"

definition carriage_return :: char where
  "carriage_return = CHR 0x0D"

definition is_digit :: "char \<Rightarrow> bool" where
  "is_digit c = (c \<in> set ''0123456789'')"

definition lower :: "char \<Rightarrow> char" where
  "lower c =
     (case map_of (zip ''ABCDEFGHIJKLMNOPQRSTUVWXYZ'' ''abcdefghijklmnopqrstuvwxyz'') c of
        Some l \<Rightarrow> l
      | None \<Rightarrow> c)"

text \<open>\<open>val.startswith(p)\<close> and \<open>val.split(sep)\<close> for a one-character separator.\<close>

definition startswith :: "string \<Rightarrow> string \<Rightarrow> bool" where
  "startswith s p = (take (length p) s = p)"

fun split :: "char \<Rightarrow> string \<Rightarrow> string list" where
  "split sep [] = [[]]"
| "split sep (c # cs) =
     (if c = sep then [] # split sep cs
      else (case split sep cs of
              [] \<Rightarrow> [[c]]
            | p # ps \<Rightarrow> (c # p) # ps))"

text \<open>
  The fragment of Python's \<open>re\<close> syntax that \<open>SUFFIX_RE\<close> and \<open>PHONE_RE\<close> are written in.
  \<open>AnyChar\<close> is the unescaped dot: every character but the newline. \<open>Eol\<close> is \<open>$\<close>: the end
  of the string, or the position just before a newline that ends the string.
\<close>

datatype regex =
    Eps
  | Lit char
  | Digit
  | AnyChar
  | Bol
  | Eol
  | Cat regex regex
  | Alt regex regex
  | Opt regex
  | Plus regex
  | Rep nat regex

fun seq :: "regex list \<Rightarrow> regex" where
  "seq [] = Eps"
| "seq [r] = r"
| "seq (r # rs) = Cat r (seq rs)"

fun alts :: "regex list \<Rightarrow> regex" where
  "alts [] = Eps"
| "alts [r] = r"
| "alts (r # rs) = Alt r (alts rs)"

definition lits :: "string \<Rightarrow> regex" where
  "lits s = seq (map Lit s)"

text \<open>
  A matching state is the number of characters already passed and the rest of the string.
  \<open>rests ic r st\<close> lists, in the order a backtracking matcher tries them, the states in
  which a match of \<open>r\<close> begun at \<open>st\<close> can end; \<open>ic\<close> is the flag \<open>re.I\<close>.
\<close>

type_synonym mstate = "nat \<times> string"

definition lit_matches :: "bool \<Rightarrow> char \<Rightarrow> char \<Rightarrow> bool" where
  "lit_matches ic c x = (if ic then lower x = lower c else x = c)"

definition one_char :: "(char \<Rightarrow> bool) \<Rightarrow> mstate \<Rightarrow> mstate list" where
  "one_char P st =
     (case snd st of
        [] \<Rightarrow> []
      | x # xs \<Rightarrow> if P x then [(Suc (fst st), xs)] else [])"

fun repeat :: "nat \<Rightarrow> (mstate \<Rightarrow> mstate list) \<Rightarrow> mstate \<Rightarrow> mstate list" where
  "repeat 0 f st = [st]"
| "repeat (Suc n) f st = concat (map (repeat n f) (f st))"

text \<open>
  One or more rounds of \<open>f\<close>, the longer runs first (the quantifier is greedy). A round
  that passes no character is not repeated; the fuel is the length of the rest.
\<close>

fun rounds :: "nat \<Rightarrow> (mstate \<Rightarrow> mstate list) \<Rightarrow> mstate \<Rightarrow> mstate list" where
  "rounds 0 f st = f st"
| "rounds (Suc k) f st =
     concat (map (\<lambda>st'. (if length (snd st') < length (snd st) then rounds k f st' else []) @ [st'])
                 (f st))"

primrec rests :: "regex \<Rightarrow> bool \<Rightarrow> mstate \<Rightarrow> mstate list" where
  "rests Eps ic st = [st]"
| "rests (Lit c) ic st = one_char (lit_matches ic c) st"
| "rests Digit ic st = one_char is_digit st"
| "rests AnyChar ic st = one_char (\<lambda>x. x \<noteq> newline) st"
| "rests Bol ic st = (if fst st = 0 then [st] else [])"
| "rests Eol ic st = (if snd st = [] \<or> snd st = [newline] then [st] else [])"
| "rests (Cat a b) ic st = concat (map (rests b ic) (rests a ic st))"
| "rests (Alt a b) ic st = rests a ic st @ rests b ic st"
| "rests (Opt a) ic st = rests a ic st @ [st]"
| "rests (Plus a) ic st = rounds (length (snd st)) (rests a ic) st"
| "rests (Rep n a) ic st = repeat n (rests a ic) st"

text \<open>
  \<open>pattern.match(s)\<close> tries the pattern at the start of \<open>s\<close> only; \<open>pattern.findall(s)\<close>
  returns a non-empty (truthy) list exactly when the pattern matches at some position of
  \<open>s\<close>, which is what \<open>re_search\<close> computes.
\<close>

definition re_match :: "bool \<Rightarrow> regex \<Rightarrow> string \<Rightarrow> bool" where
  "re_match ic r s = (rests r ic (0, s) \<noteq> [])"

definition re_search :: "bool \<Rightarrow> regex \<Rightarrow> string \<Rightarrow> bool" where
  "re_search ic r s = list_ex (\<lambda>i. rests r ic (i, drop i s) \<noteq> []) [0..<Suc (length s)]"

text \<open>
  \<^verbatim>\<open>SUFFIX_RE = re.compile(r"(iii?)|(i?v)|((ed|ph|m|o)\.?d\.?)|([sj]r\.?)|(esq\.?)", re.I)\<close>
\<close>

definition SUFFIX_RE :: regex where
  "SUFFIX_RE =
     alts [seq [Lit CHR ''i'', Lit CHR ''i'', Opt (Lit CHR ''i'')],
           seq [Opt (Lit CHR ''i''), Lit CHR ''v''],
           seq [alts [lits ''ed'', lits ''ph'', Lit CHR ''m'', Lit CHR ''o''],
                Opt (Lit CHR ''.''), Lit CHR ''d'', Opt (Lit CHR ''.'')],
           seq [Alt (Lit CHR ''s'') (Lit CHR ''j''), Lit CHR ''r'', Opt (Lit CHR ''.'')],
           seq [lits ''esq'', Opt (Lit CHR ''.'')]]"

text \<open>
  \<^verbatim>\<open>PHONE_RE = re.compile(r"^(1-)?\d{3}-\d{3}-\d{4}( ext. \d+)?$")\<close>
  The dot after \<open>ext\<close> is not escaped in the source.
\<close>

definition PHONE_RE :: regex where
  "PHONE_RE =
     seq [Bol, Opt (lits ''1-''),
          Rep 3 Digit, Lit CHR ''-'', Rep 3 Digit, Lit CHR ''-'', Rep 4 Digit,
          Opt (seq [lits '' ext'', AnyChar, Lit CHR '' '', Plus Digit]),
          Eol]"

text \<open>
  Exceptions. pydantic turns a \<open>ValueError\<close> raised by a validator into an entry of the
  error report; any other exception of the source leaves validation unhandled.
\<close>

datatype exc = ValueError string | AttributeError string

definition validate_phone :: "string \<Rightarrow> exc + string" where
  "validate_phone val =
     (if \<not> re_match False PHONE_RE val then Inl (ValueError ''invalid phone number'')
      else Inr val)"

definition no_bad_comma :: "string \<Rightarrow> exc + string" where
  "no_bad_comma val =
     (let pieces = split CHR '','' val in
      if length pieces > 2 then Inl (ValueError ''too many commas, check if name is mangled'')
      else if length pieces = 2 \<and> \<not> re_search True SUFFIX_RE (pieces ! 1)
        then Inl (ValueError ''invalid comma'')
      else Inr val)"

section \<open>Raw input, error reports and the validation orchestrator\<close>

text \<open>
  A raw value is decoded from a structured-data file: \<open>None\<close>, an integer, a string, a
  list, or a mapping. A mapping is an association list in which the first binding of a
  key counts; its keys are hashable values (\<open>None\<close>, integers, strings). A raw record, the
  keyword arguments a model is built from, is a mapping whose keys are strings.
\<close>

datatype raw = RNone | RInt int | RStr string | RList "raw list" | RDict "(raw \<times> raw) list"

type_synonym kwargs = "(string \<times> raw) list"

text \<open>
  An entry of the error report: the path of the failing field (field names and list
  indices) and what failed there. \<open>Missing\<close> is pydantic's "field required",
  \<open>NotAMember\<close> its "value is not a valid enumeration member" with the permitted values,
  \<open>Rule m\<close> a \<open>ValueError\<close> with message \<open>m\<close> raised by a validator of the source.
\<close>

datatype loc_item = Key string | Idx nat

datatype error_kind =
    Missing
  | NoneNotAllowed
  | WrongType string
  | NotAMember "string list"
  | Rule string

type_synonym error = "loc_item list \<times> error_kind"

text \<open>
  What validating a value comes to: the normalized value, an error report, or an
  exception that pydantic does not catch and that leaves the call unhandled.
\<close>

datatype 'a result = Ok 'a | Errors "error list" | Raised exc

definition under :: "loc_item \<Rightarrow> error list \<Rightarrow> error list" where
  "under k es = map (\<lambda>e. (k # fst e, snd e)) es"

text \<open>\<open>str(i)\<close> for an integer.\<close>

fun digits :: "nat \<Rightarrow> string" where
  "digits n =
     (if n < 10 then [''0123456789'' ! n]
      else digits (n div 10) @ [''0123456789'' ! (n mod 10)])"

declare digits.simps [simp del]

definition str_int :: "int \<Rightarrow> string" where
  "str_int i = (if i < 0 then CHR ''-'' # digits (nat (- i)) else digits (nat i))"

text \<open>
  The validators pydantic derives from a field's annotation: \<open>str\<close> (an integer is
  coerced to its decimal text), an \<open>Enum\<close> with string values, \<open>list[T]\<close>, and a nested
  model. In a list every item is validated and the errors of all items are reported,
  each under its index.
\<close>

definition str_type :: "raw \<Rightarrow> raw result" where
  "str_type v =
     (case v of
        RStr s \<Rightarrow> Ok (RStr s)
      | RInt i \<Rightarrow> Ok (RStr (str_int i))
      | _ \<Rightarrow> Errors [([], WrongType ''str type expected'')])"

definition enum_type :: "string list \<Rightarrow> raw \<Rightarrow> raw result" where
  "enum_type members v =
     (case v of
        RStr s \<Rightarrow> if s \<in> set members then Ok (RStr s) else Errors [([], NotAMember members)]
      | _ \<Rightarrow> Errors [([], NotAMember members)])"

fun list_items :: "(raw \<Rightarrow> raw result) \<Rightarrow> nat \<Rightarrow> raw list \<Rightarrow> raw list result" where
  "list_items f i [] = Ok []"
| "list_items f i (x # xs) =
     (case f x of
        Raised e \<Rightarrow> Raised e
      | Ok y \<Rightarrow>
          (case list_items f (Suc i) xs of
             Ok ys \<Rightarrow> Ok (y # ys)
           | Errors es \<Rightarrow> Errors es
           | Raised e \<Rightarrow> Raised e)
      | Errors es \<Rightarrow>
          (case list_items f (Suc i) xs of
             Ok ys \<Rightarrow> Errors (under (Idx i) es)
           | Errors es' \<Rightarrow> Errors (under (Idx i) es @ es')
           | Raised e \<Rightarrow> Raised e))"

definition list_type :: "(raw \<Rightarrow> raw result) \<Rightarrow> raw \<Rightarrow> raw result" where
  "list_type f v =
     (case v of
        RList xs \<Rightarrow>
          (case list_items f 0 xs of
             Ok ys \<Rightarrow> Ok (RList ys)
           | Errors es \<Rightarrow> Errors es
           | Raised e \<Rightarrow> Raised e)
      | _ \<Rightarrow> Errors [([], WrongType ''value is not a valid list'')])"

text \<open>
  Python's \<open>dict(value)\<close>, \<open>None\<close> when it raises. A mapping is itself. A list is
  converted when every item yields a key and a value: a list of two items whose first is
  hashable, a string of two characters, or a mapping with two keys; a later item with
  the same key replaces the value. The empty string is an empty sequence of items; no
  other string, no integer and not \<open>None\<close> is converted.
\<close>

definition hashable :: "raw \<Rightarrow> bool" where
  "hashable v = (case v of RList xs \<Rightarrow> False | RDict d \<Rightarrow> False | _ \<Rightarrow> True)"

definition dict_keys :: "(raw \<times> raw) list \<Rightarrow> raw list" where
  "dict_keys d = rev (remdups (rev (map fst d)))"

definition pair_of :: "raw \<Rightarrow> (raw \<times> raw) option" where
  "pair_of item =
     (case item of
        RList xs \<Rightarrow>
          (case xs of
             [k, v] \<Rightarrow> if hashable k then Some (k, v) else None
           | _ \<Rightarrow> None)
      | RStr s \<Rightarrow>
          (case s of
             [a, b] \<Rightarrow> Some (RStr [a], RStr [b])
           | _ \<Rightarrow> None)
      | RDict d \<Rightarrow>
          (case dict_keys d of
             [k1, k2] \<Rightarrow> Some (k1, k2)
           | _ \<Rightarrow> None)
      | _ \<Rightarrow> None)"

fun setitem :: "raw \<Rightarrow> raw \<Rightarrow> (raw \<times> raw) list \<Rightarrow> (raw \<times> raw) list" where
  "setitem k v [] = [(k, v)]"
| "setitem k v (kv # d) = (if fst kv = k then (fst kv, v) # d else kv # setitem k v d)"

fun dict_of_items :: "raw list \<Rightarrow> (raw \<times> raw) list \<Rightarrow> (raw \<times> raw) list option" where
  "dict_of_items [] d = Some d"
| "dict_of_items (item # items) d =
     (case pair_of item of
        None \<Rightarrow> None
      | Some kv \<Rightarrow> dict_of_items items (setitem (fst kv) (snd kv) d))"

definition py_dict :: "raw \<Rightarrow> (raw \<times> raw) list option" where
  "py_dict v =
     (case v of
        RDict d \<Rightarrow> Some d
      | RList items \<Rightarrow> dict_of_items items []
      | RStr s \<Rightarrow> if s = [] then Some [] else None
      | _ \<Rightarrow> None)"

text \<open>
  \<open>cls(**d)\<close> takes a mapping whose keys are all strings and raises \<open>TypeError\<close>
  otherwise.
\<close>

fun kwargs_of :: "(raw \<times> raw) list \<Rightarrow> kwargs option" where
  "kwargs_of [] = Some []"
| "kwargs_of (kv # d) =
     (case fst kv of
        RStr n \<Rightarrow> map_option (\<lambda>kw. (n, snd kv) # kw) (kwargs_of d)
      | _ \<Rightarrow> None)"

text \<open>
  A nested model (\<open>Model.validate\<close>) validates a mapping, or what \<open>dict(value)\<close> makes of
  a value that is not one; the validated record is the mapping of its fields. A field
  annotated \<open>dict\<close> takes a mapping, or what \<open>dict(value)\<close> makes of the value, as it is.
\<close>

definition model_type :: "(kwargs \<Rightarrow> kwargs result) \<Rightarrow> raw \<Rightarrow> raw result" where
  "model_type validate v =
     (case py_dict v of
        None \<Rightarrow> Errors [([], WrongType ''value is not a valid dict'')]
      | Some d \<Rightarrow>
          (case kwargs_of d of
             None \<Rightarrow> Errors [([], WrongType ''keywords must be strings'')]
           | Some kw \<Rightarrow>
               (case validate kw of
                  Ok vs \<Rightarrow> Ok (RDict (map (\<lambda>kv. (RStr (fst kv), snd kv)) vs))
                | Errors es \<Rightarrow> Errors es
                | Raised e \<Rightarrow> Raised e)))"

definition dict_type :: "raw \<Rightarrow> raw result" where
  "dict_type v =
     (case py_dict v of
        None \<Rightarrow> Errors [([], WrongType ''value is not a valid dict'')]
      | Some d \<Rightarrow> Ok (RDict d))"

text \<open>
  A declared field: its name, its default (\<open>None\<close> for a required field), whether the
  annotation is \<open>Optional\<close>, the validator of its annotation, and the validators that the
  class attaches to it with \<open>validator(...)\<close>, in the order of the class body. In this
  source every attached validator is on a \<open>str\<close> field.
\<close>

record model_field =
  f_name :: string
  f_default :: "raw option"
  f_allow_none :: bool
  f_type :: "raw \<Rightarrow> raw result"
  f_validators :: "(string \<Rightarrow> exc + string) list"

record model =
  m_fields :: "model_field list"
  m_root_validators :: "(kwargs \<Rightarrow> exc + kwargs) list"

text \<open>The validators of one field run in order and stop at the first that raises.\<close>

fun run_validators :: "(string \<Rightarrow> exc + string) list \<Rightarrow> string \<Rightarrow> exc + string" where
  "run_validators [] s = Inr s"
| "run_validators (f # fs) s =
     (case f s of
        Inl e \<Rightarrow> Inl e
      | Inr s' \<Rightarrow> run_validators fs s')"

definition validate_field :: "model_field \<Rightarrow> raw \<Rightarrow> raw result" where
  "validate_field f v =
     (if v = RNone then (if f_allow_none f then Ok RNone else Errors [([], NoneNotAllowed)])
      else
        (case f_type f v of
           Errors es \<Rightarrow> Errors es
         | Raised e \<Rightarrow> Raised e
         | Ok v' \<Rightarrow>
             (case v' of
                RStr s \<Rightarrow>
                  (case run_validators (f_validators f) s of
                     Inr s' \<Rightarrow> Ok (RStr s')
                   | Inl e \<Rightarrow>
                       (case e of
                          ValueError m \<Rightarrow> Errors [([], Rule m)]
                        | AttributeError a \<Rightarrow> Raised e))
              | _ \<Rightarrow> Ok v')))"

text \<open>
  pydantic's \<open>validate_model\<close>. The fields are taken in declaration order. A field that
  the input does not supply is an error when it is required and takes its default
  otherwise, and the default is not validated. A supplied value is validated; it enters
  \<open>values\<close> when it passes and adds its errors to the report otherwise. Then every root
  validator is called on \<open>values\<close>, whether or not the report is empty (the source's
  \<open>@root_validator\<close> does not set \<open>skip_on_failure\<close>).
\<close>

fun validate_fields ::
  "model_field list \<Rightarrow> kwargs \<Rightarrow> kwargs \<times> error list \<Rightarrow> exc + kwargs \<times> error list" where
  "validate_fields [] input acc = Inr acc"
| "validate_fields (f # fs) input (values, errors) =
     (case map_of input (f_name f) of
        None \<Rightarrow>
          (case f_default f of
             None \<Rightarrow> validate_fields fs input (values, errors @ [([Key (f_name f)], Missing)])
           | Some d \<Rightarrow> validate_fields fs input (values @ [(f_name f, d)], errors))
      | Some v \<Rightarrow>
          (case validate_field f v of
             Ok v' \<Rightarrow> validate_fields fs input (values @ [(f_name f, v')], errors)
           | Errors es \<Rightarrow> validate_fields fs input (values, errors @ under (Key (f_name f)) es)
           | Raised e \<Rightarrow> Inl e))"

fun run_root_validators ::
  "(kwargs \<Rightarrow> exc + kwargs) list \<Rightarrow> kwargs \<times> error list \<Rightarrow> exc + kwargs \<times> error list" where
  "run_root_validators [] acc = Inr acc"
| "run_root_validators (rv # rvs) (values, errors) =
     (case rv values of
        Inr values' \<Rightarrow> run_root_validators rvs (values', errors)
      | Inl e \<Rightarrow>
          (case e of
             ValueError m \<Rightarrow>
               run_root_validators rvs (values, errors @ [([Key ''__root__''], Rule m)])
           | AttributeError a \<Rightarrow> Inl e))"

definition validate_model :: "model \<Rightarrow> kwargs \<Rightarrow> kwargs result" where
  "validate_model M input =
     (case validate_fields (m_fields M) input ([], []) of
        Inl e \<Rightarrow> Raised e
      | Inr acc \<Rightarrow>
          (case run_root_validators (m_root_validators M) acc of
             Inl e \<Rightarrow> Raised e
           | Inr (values, errors) \<Rightarrow> if errors = [] then Ok values else Errors errors))"

section \<open>The collaborators of \<open>common.py\<close>\<close>

text \<open>
  Modelled from the spec: \<open>validate_str_no_newline\<close> of \<open>common.py\<close>, which is not among
  the source files. "No-newline string: fails if the string contains \<open>\n\<close> or \<open>\r\<close>."
\<close>

definition validate_str_no_newline :: "string \<Rightarrow> exc + string" where
  "validate_str_no_newline v =
     (if newline \<in> set v \<or> carriage_return \<in> set v
      then Inl (ValueError ''must be a string without newline'')
      else Inr v)"

text \<open>
  Modelled from the spec: \<open>validate_fuzzy_date\<close> of \<open>common.py\<close>. "Fuzzy date: accepts
  empty string, or a full date \<open>YYYY-MM-DD\<close>, or a year-month \<open>YYYY-MM\<close>, or a bare year
  \<open>YYYY\<close>."
\<close>

definition is_year :: "string \<Rightarrow> bool" where
  "is_year v = (length v = 4 \<and> list_all is_digit v)"

definition is_year_month :: "string \<Rightarrow> bool" where
  "is_year_month v =
     (length v = 7 \<and> is_year (take 4 v) \<and> v ! 4 = CHR ''-'' \<and> list_all is_digit (drop 5 v))"

definition is_full_date :: "string \<Rightarrow> bool" where
  "is_full_date v =
     (length v = 10 \<and> is_year_month (take 7 v) \<and> v ! 7 = CHR ''-'' \<and> list_all is_digit (drop 8 v))"

definition validate_fuzzy_date :: "string \<Rightarrow> exc + string" where
  "validate_fuzzy_date v =
     (if v = [] \<or> is_year v \<or> is_year_month v \<or> is_full_date v then Inr v
      else Inl (ValueError ''invalid date''))"

text \<open>
  The other names that \<open>people.py\<close> imports from \<open>common.py\<close> are parameters of the model:
  the three validators whose grammar the spec leaves to external collaborators, and the
  three record schemas \<open>Link\<close>, \<open>OtherName\<close> and \<open>OtherIdentifier\<close>.
\<close>

record collaborators =
  validate_ocd_person :: "string \<Rightarrow> exc + string"
  validate_ocd_jurisdiction :: "string \<Rightarrow> exc + string"
  validate_url :: "string \<Rightarrow> exc + string"
  Link :: model
  OtherName :: model
  OtherIdentifier :: model

section \<open>The record schemas of \<open>people.py\<close>\<close>

datatype RoleType =
    UPPER
  | LOWER
  | JOINT
  | GOVERNOR
  | LT_GOVERNOR
  | MAYOR
  | SOS
  | CHIEF_ELECTION_OFFICER

fun RoleType_value :: "RoleType \<Rightarrow> string" where
  "RoleType_value UPPER = ''upper''"
| "RoleType_value LOWER = ''lower''"
| "RoleType_value JOINT = ''legislature''"
| "RoleType_value GOVERNOR = ''governor''"
| "RoleType_value LT_GOVERNOR = ''lt_governor''"
| "RoleType_value MAYOR = ''mayor''"
| "RoleType_value SOS = ''secretary of state''"
| "RoleType_value CHIEF_ELECTION_OFFICER = ''chief election officer''"

definition RoleType_members :: "RoleType list" where
  "RoleType_members =
     [UPPER, LOWER, JOINT, GOVERNOR, LT_GOVERNOR, MAYOR, SOS, CHIEF_ELECTION_OFFICER]"

datatype OfficeType = DISTRICT | CAPITOL | PRIMARY

fun OfficeType_value :: "OfficeType \<Rightarrow> string" where
  "OfficeType_value DISTRICT = ''District Office''"
| "OfficeType_value CAPITOL = ''Capitol Office''"
| "OfficeType_value PRIMARY = ''Primary Office''"

definition OfficeType_members :: "OfficeType list" where
  "OfficeType_members = [DISTRICT, CAPITOL, PRIMARY]"

text \<open>
  The attribute access \<open>OfficeType.NAME\<close>: the member of that name, or \<open>AttributeError\<close>
  when the class has none.
\<close>

definition OfficeType_attr :: "string \<Rightarrow> exc + OfficeType" where
  "OfficeType_attr n =
     (case map_of [(''DISTRICT'', DISTRICT), (''CAPITOL'', CAPITOL), (''PRIMARY'', PRIMARY)] n of
        Some member \<Rightarrow> Inr member
      | None \<Rightarrow> Inl (AttributeError n))"

text \<open>A tuple display evaluates its items from left to right; the first that raises ends it.\<close>

fun tuple_of :: "(exc + 'a) list \<Rightarrow> exc + 'a list" where
  "tuple_of [] = Inr []"
| "tuple_of (x # xs) =
     (case x of
        Inl e \<Rightarrow> Inl e
      | Inr a \<Rightarrow>
          (case tuple_of xs of
             Inl e \<Rightarrow> Inl e
           | Inr as \<Rightarrow> Inr (a # as)))"

text \<open>
  \<open>values.get(k)\<close> is \<open>map_of values k\<close>, with \<open>None\<close> for Python's \<open>None\<close>. A validated
  enumeration member is its string value (both enumerations derive from \<open>str\<close>, so \<open>in\<close>
  compares the strings). \<open>truthy\<close> is Python's truth value.
\<close>

definition py_in :: "raw option \<Rightarrow> raw list \<Rightarrow> bool" where
  "py_in x xs = (case x of None \<Rightarrow> False | Some v \<Rightarrow> v \<in> set xs)"

definition truthy :: "raw option \<Rightarrow> bool" where
  "truthy x =
     (case x of
        None \<Rightarrow> False
      | Some RNone \<Rightarrow> False
      | Some (RInt i) \<Rightarrow> i \<noteq> 0
      | Some (RStr s) \<Rightarrow> s \<noteq> []
      | Some (RList xs) \<Rightarrow> xs \<noteq> []
      | Some (RDict d) \<Rightarrow> d \<noteq> [])"

text \<open>
  \<^verbatim>\<open>
  @root_validator
  def check_executives_have_end_date(cls, values):
      office_type = values.get("type")
      end_date = values.get("end_date")
      if (office_type in (OfficeType.GOVERNOR, OfficeType.LT_GOVERNOR, OfficeType.MAYOR,
                          OfficeType.CHIEF_ELECTION_OFFICER, OfficeType.SOS)
              and not end_date):
          raise ValueError("end_date is required for executive roles")
      return values
  \<close>
  The tuple names members of \<open>OfficeType\<close>, the enumeration of contact-detail notes.
\<close>

definition check_executives_have_end_date :: "kwargs \<Rightarrow> exc + kwargs" where
  "check_executives_have_end_date values =
     (let office_type = map_of values ''type'';
          end_date = map_of values ''end_date''
      in case tuple_of (map OfficeType_attr
                [''GOVERNOR'', ''LT_GOVERNOR'', ''MAYOR'', ''CHIEF_ELECTION_OFFICER'', ''SOS'']) of
           Inl e \<Rightarrow> Inl e
         | Inr executives \<Rightarrow>
             if py_in office_type (map (\<lambda>member. RStr (OfficeType_value member)) executives)
                \<and> \<not> truthy end_date
             then Inl (ValueError ''end_date is required for executive roles'')
             else Inr values)"

text \<open>
  \<^verbatim>\<open>
  @validator("*")
  def validate_social(cls, val: str) -> str:
      validate_str_no_newline(val)
      if val.startswith(("http://", "https://", "@")):
          raise ValueError("invalid social media account name, drop URL or @")
      return val
  \<close>
\<close>

definition validate_social :: "string \<Rightarrow> exc + string" where
  "validate_social val =
     (case validate_str_no_newline val of
        Inl e \<Rightarrow> Inl e
      | Inr _ \<Rightarrow>
          if startswith val ''http://'' \<or> startswith val ''https://'' \<or> startswith val ''@''
          then Inl (ValueError ''invalid social media account name, drop URL or @'')
          else Inr val)"

text \<open>Field declarations: \<open>name: str\<close>, \<open>name: str = ""\<close>, an enumeration, a list.\<close>

definition str_field :: "string \<Rightarrow> raw option \<Rightarrow> (string \<Rightarrow> exc + string) list \<Rightarrow> model_field" where
  "str_field n d vs =
     \<lparr>f_name = n, f_default = d, f_allow_none = False, f_type = str_type, f_validators = vs\<rparr>"

definition enum_field :: "string \<Rightarrow> string list \<Rightarrow> model_field" where
  "enum_field n members =
     \<lparr>f_name = n, f_default = None, f_allow_none = False, f_type = enum_type members,
      f_validators = []\<rparr>"

definition list_field :: "string \<Rightarrow> raw option \<Rightarrow> (raw \<Rightarrow> raw result) \<Rightarrow> model_field" where
  "list_field n d item =
     \<lparr>f_name = n, f_default = d, f_allow_none = False, f_type = list_type item,
      f_validators = []\<rparr>"

text \<open>
  Modelled from the spec: \<open>BaseModel\<close> and \<open>TimeScoped\<close> of \<open>common.py\<close>. \<open>BaseModel\<close> is
  taken to add no rule of its own. \<open>TimeScoped\<close> is the "inherited start/end date range":
  \<open>start_date\<close> and \<open>end_date\<close>, both defaulting to the empty string ("the time range's
  \<open>end_date\<close> is absent/empty") and both fuzzy dates. Inherited fields come first.
\<close>

definition TimeScoped_fields :: "model_field list" where
  "TimeScoped_fields =
     [str_field ''start_date'' (Some (RStr [])) [validate_fuzzy_date],
      str_field ''end_date'' (Some (RStr [])) [validate_fuzzy_date]]"

definition PersonIdBlock :: model where
  "PersonIdBlock =
     \<lparr>m_fields =
        [str_field ''twitter'' (Some (RStr [])) [validate_social],
         str_field ''youtube'' (Some (RStr [])) [validate_social],
         str_field ''instagram'' (Some (RStr [])) [validate_social],
         str_field ''facebook'' (Some (RStr [])) [validate_social]],
      m_root_validators = []\<rparr>"

definition Party :: model where
  "Party =
     \<lparr>m_fields = TimeScoped_fields @ [str_field ''name'' None [validate_str_no_newline]],
      m_root_validators = []\<rparr>"

definition Role :: "collaborators \<Rightarrow> model" where
  "Role c =
     \<lparr>m_fields = TimeScoped_fields @
        [enum_field ''type'' (map RoleType_value RoleType_members),
         str_field ''district'' None [validate_str_no_newline],
         str_field ''jurisdiction'' None [validate_ocd_jurisdiction c],
         str_field ''end_reason'' None [validate_str_no_newline]],
      m_root_validators = [check_executives_have_end_date]\<rparr>"

definition ContactDetail :: model where
  "ContactDetail =
     \<lparr>m_fields =
        [enum_field ''note'' (map OfficeType_value OfficeType_members),
         str_field ''address'' (Some (RStr [])) [validate_str_no_newline],
         str_field ''voice'' (Some (RStr [])) [validate_phone],
         str_field ''fax'' (Some (RStr [])) [validate_phone]],
      m_root_validators = []\<rparr>"

text \<open>
  \<open>Person\<close>. The validators of \<open>name\<close> are \<open>no_bad_comma\<close> and then the no-newline check
  (the order of the class body); \<open>given_name\<close> is listed twice in the source's decorator
  and pydantic keeps one validator per function name.
\<close>

definition Person :: "collaborators \<Rightarrow> model" where
  "Person c =
     \<lparr>m_fields =
        [str_field ''id'' None [validate_ocd_person c],
         str_field ''name'' None [no_bad_comma, validate_str_no_newline],
         str_field ''given_name'' (Some (RStr [])) [validate_str_no_newline],
         str_field ''family_name'' (Some (RStr [])) [validate_str_no_newline],
         str_field ''middle_name'' (Some (RStr [])) [validate_str_no_newline],
         str_field ''suffix'' (Some (RStr [])) [validate_str_no_newline],
         str_field ''gender'' (Some (RStr [])) [validate_str_no_newline],
         str_field ''email'' (Some (RStr [])) [validate_str_no_newline],
         str_field ''biography'' (Some (RStr [])) [],
         str_field ''birth_date'' (Some (RStr [])) [validate_fuzzy_date],
         str_field ''death_date'' (Some (RStr [])) [validate_fuzzy_date],
         str_field ''image'' (Some (RStr [])) [validate_url c],
         list_field ''party'' None (model_type (validate_model Party)),
         list_field ''roles'' None (model_type (validate_model (Role c))),
         list_field ''contact_details'' (Some (RList []))
           (model_type (validate_model ContactDetail)),
         list_field ''links'' (Some (RList [])) (model_type (validate_model (Link c))),
         list_field ''other_names'' (Some (RList []))
           (model_type (validate_model (OtherName c))),
         \<lparr>f_name = ''ids'', f_default = Some RNone, f_allow_none = True,
          f_type = model_type (validate_model PersonIdBlock), f_validators = []\<rparr>,
         list_field ''other_identifiers'' (Some (RList []))
           (model_type (validate_model (OtherIdentifier c))),
         list_field ''sources'' (Some (RList [])) (model_type (validate_model (Link c))),
         \<lparr>f_name = ''extras'', f_default = Some (RDict []), f_allow_none = False,
          f_type = dict_type, f_validators = []\<rparr>],
      m_root_validators = []\<rparr>"

section \<open>Reading a validation outcome\<close>

text \<open>
  The error report of an outcome (empty when validation succeeded or was left by an
  exception), and the entries of a report that lie at or below the field \<open>k\<close>.
\<close>

definition report :: "'a result \<Rightarrow> error list" where
  "report r = (case r of Errors es \<Rightarrow> es | _ \<Rightarrow> [])"

definition errors_at :: "string \<Rightarrow> error list \<Rightarrow> error list" where
  "errors_at k es = filter (\<lambda>e. take 1 (fst e) = [Key k]) es"

text \<open>
  What one declared field contributes to \<open>values\<close> and to the report, and the
  contributions of a list of fields in declaration order.
\<close>

definition field_value :: "model_field \<Rightarrow> kwargs \<Rightarrow> kwargs" where
  "field_value f input =
     (case map_of input (f_name f) of
        None \<Rightarrow> (case f_default f of None \<Rightarrow> [] | Some d \<Rightarrow> [(f_name f, d)])
      | Some v \<Rightarrow> (case validate_field f v of Ok v' \<Rightarrow> [(f_name f, v')] | _ \<Rightarrow> []))"

definition field_report :: "model_field \<Rightarrow> kwargs \<Rightarrow> error list" where
  "field_report f input =
     (case map_of input (f_name f) of
        None \<Rightarrow> (case f_default f of None \<Rightarrow> [([Key (f_name f)], Missing)] | Some d \<Rightarrow> [])
      | Some v \<Rightarrow> under (Key (f_name f)) (report (validate_field f v)))"

definition field_values :: "model_field list \<Rightarrow> kwargs \<Rightarrow> kwargs" where
  "field_values fs input = concat (map (\<lambda>f. field_value f input) fs)"

definition field_reports :: "model_field list \<Rightarrow> kwargs \<Rightarrow> error list" where
  "field_reports fs input = concat (map (\<lambda>f. field_report f input) fs)"

text \<open>
  An instance of the collaborators on which the model runs on concrete input: the
  identifier and URL validators accept every string, and the three imported schemas
  declare no field.
\<close>

definition lenient :: collaborators where
  "lenient =
     \<lparr>validate_ocd_person = Inr,
      validate_ocd_jurisdiction = Inr,
      validate_url = Inr,
      Link = \<lparr>m_fields = [], m_root_validators = []\<rparr>,
      OtherName = \<lparr>m_fields = [], m_root_validators = []\<rparr>,
      OtherIdentifier = \<lparr>m_fields = [], m_root_validators = []\<rparr>\<rparr>"

section \<open>The grammars as the spec words them\<close>

text \<open>
  The phone grammar of the spec, \<^verbatim>\<open>^(1-)?\d{3}-\d{3}-\d{4}( ext\. \d+)?$\<close>, in which the dot
  after \<open>ext\<close> is escaped: a literal dot.
\<close>

definition PHONE_RE_spec :: regex where
  "PHONE_RE_spec =
     seq [Bol, Opt (lits ''1-''),
          Rep 3 Digit, Lit CHR ''-'', Rep 3 Digit, Lit CHR ''-'', Rep 4 Digit,
          Opt (seq [lits '' ext'', Lit CHR ''.'', Lit CHR '' '', Plus Digit]),
          Eol]"

text \<open>
  The suffix grammar of the spec: "roman numerals II/III/IV, degree suffixes
  Ed./PhD/MD/etc., generational suffixes Sr./Jr., and Esq., case-insensitive". These are
  the words of the alternation, in lower case. "The text after the comma must match a
  suffix grammar": the text, without the blanks around it, is one of these words up to
  the case of its letters.
\<close>

definition suffix_forms :: "string list" where
  "suffix_forms =
     [''iii'', ''ii'', ''iv'', ''v'',
      ''ed.d.'', ''ed.d'', ''edd.'', ''edd'',
      ''ph.d.'', ''ph.d'', ''phd.'', ''phd'',
      ''m.d.'', ''m.d'', ''md.'', ''md'',
      ''o.d.'', ''o.d'', ''od.'', ''od'',
      ''sr.'', ''sr'', ''jr.'', ''jr'',
      ''esq.'', ''esq'']"

definition strip_blanks :: "string \<Rightarrow> string" where
  "strip_blanks t =
     rev (dropWhile (\<lambda>c. c = CHR '' '') (rev (dropWhile (\<lambda>c. c = CHR '' '') t)))"

definition matches_suffix_grammar :: "string \<Rightarrow> bool" where
  "matches_suffix_grammar t = (map lower (strip_blanks t) \<in> set suffix_forms)"

text \<open>
  What the unanchored search of the source tests instead: some stretch of the text is
  one of the words, up to the case of its letters.
\<close>

definition contains_suffix_form :: "string \<Rightarrow> bool" where
  "contains_suffix_form t = (\<exists>u w v. t = u @ w @ v \<and> map lower w \<in> set suffix_forms)"

text \<open>
  The patterns built from literals, concatenation, alternation and \<open>?\<close> alone, and the
  finitely many words such a pattern matches under \<open>re.I\<close>, in lower case.
\<close>

fun simple :: "regex \<Rightarrow> bool" where
  "simple Eps = True"
| "simple (Lit c) = True"
| "simple (Cat a b) = (simple a \<and> simple b)"
| "simple (Alt a b) = (simple a \<and> simple b)"
| "simple (Opt a) = simple a"
| "simple r = False"

fun words :: "regex \<Rightarrow> string list" where
  "words Eps = [[]]"
| "words (Lit c) = [[lower c]]"
| "words (Cat a b) = concat (map (\<lambda>u. map (\<lambda>v. u @ v) (words b)) (words a))"
| "words (Alt a b) = words a @ words b"
| "words (Opt a) = words a @ [[]]"
| "words r = []"

text \<open>The text after the first occurrence of a separator.\<close>

definition text_after :: "char \<Rightarrow> string \<Rightarrow> string" where
  "text_after sep s = tl (dropWhile (\<lambda>c. c \<noteq> sep) s)"

section \<open>The suffix grammar and the name-comma rule\<close>

text \<open>
  \<open>SUFFIX_RE\<close> is built from literals, concatenation, alternation and \<open>?\<close>, so it matches
  finitely many words: the suffix forms. A match of such a pattern at a position is a
  prefix of the rest that is one of its words up to case.
\<close>

lemma words_SUFFIX: "words SUFFIX_RE = suffix_forms"
  by (simp add: SUFFIX_RE_def suffix_forms_def lits_def lower_def)

lemma simple_SUFFIX: "simple SUFFIX_RE"
  by (simp add: SUFFIX_RE_def lits_def)

lemma set_one_char: "set (one_char P (p, s)) = {(Suc p, t) | x t. s = x # t \<and> P x}"
  by (auto simp: one_char_def split: list.splits)

lemma rests_simple:
  "simple r \<Longrightarrow> set (rests r True (p, s)) = {(p + length x, t) | x t. s = x @ t \<and> map lower x \<in> set (words r)}"
proof (induction r arbitrary: p s)
  case Eps
  then show ?case by auto
next
  case (Lit c)
  show ?case
    apply (simp add: set_one_char lit_matches_def)
    apply (auto simp: Cons_eq_append_conv)
    done
next
  case (Cat a b)
  then have A: "\<And>p s. set (rests a True (p, s)) = {(p + length x, t) | x t. s = x @ t \<and> map lower x \<in> set (words a)}"
    and B: "\<And>p s. set (rests b True (p, s)) = {(p + length x, t) | x t. s = x @ t \<and> map lower x \<in> set (words b)}"
    by simp_all
  show ?case
  proof (rule set_eqI, rule iffI)
    fix st assume "st \<in> set (rests (Cat a b) True (p, s))"
    then obtain st' where 1: "st' \<in> set (rests a True (p, s))" and 2: "st \<in> set (rests b True st')"
      by auto
    from 1 obtain x t where x: "st' = (p + length x, t)" "s = x @ t" "map lower x \<in> set (words a)"
      using A by auto
    from 2 x obtain y t' where y: "st = (p + length x + length y, t')" "t = y @ t'" "map lower y \<in> set (words b)"
      using B by auto
    have "map lower (x @ y) \<in> set (words (Cat a b))" using x y by auto
    moreover have "s = (x @ y) @ t'" using x y by simp
    moreover have "st = (p + length (x @ y), t')" using y by simp
    ultimately show "st \<in> {(p + length x, t) | x t. s = x @ t \<and> map lower x \<in> set (words (Cat a b))}"
      by blast
  next
    fix st assume "st \<in> {(p + length x, t) | x t. s = x @ t \<and> map lower x \<in> set (words (Cat a b))}"
    then obtain z t where z: "st = (p + length z, t)" "s = z @ t" "map lower z \<in> set (words (Cat a b))"
      by auto
    then obtain u v where uv: "u \<in> set (words a)" "v \<in> set (words b)" "map lower z = u @ v"
      by auto
    then obtain x y where xy: "z = x @ y" "map lower x = u" "map lower y = v"
      by (auto simp: map_eq_append_conv)
    have "(p + length x, y @ t) \<in> set (rests a True (p, s))"
      using A z xy uv by auto
    moreover have "st \<in> set (rests b True (p + length x, y @ t))"
      using B[of "p + length x" "y @ t"] z xy uv by auto
    ultimately show "st \<in> set (rests (Cat a b) True (p, s))" by auto
  qed
next
  case (Alt a b)
  then show ?case by auto
next
  case (Opt a)
  then show ?case by auto
qed simp_all

lemma re_search_iff: "re_search ic r s = (\<exists>i. i \<le> length s \<and> rests r ic (i, drop i s) \<noteq> [])"
  unfolding re_search_def list_ex_iff set_upt by (auto simp: less_Suc_eq_le)

lemma re_search_simple:
  assumes "simple r"
  shows "re_search True r t = (\<exists>u w v. t = u @ w @ v \<and> map lower w \<in> set (words r))"
proof
  assume "re_search True r t"
  then obtain i where i: "i \<le> length t" "rests r True (i, drop i t) \<noteq> []"
    by (auto simp: re_search_iff)
  then obtain st where "st \<in> set (rests r True (i, drop i t))"
    by (cases "rests r True (i, drop i t)") auto
  then obtain x t' where "drop i t = x @ t'" "map lower x \<in> set (words r)"
    using rests_simple[OF assms, of i "drop i t"] by auto
  then have "t = take i t @ x @ t' \<and> map lower x \<in> set (words r)"
    by (metis append_take_drop_id)
  then show "\<exists>u w v. t = u @ w @ v \<and> map lower w \<in> set (words r)" by blast
next
  assume "\<exists>u w v. t = u @ w @ v \<and> map lower w \<in> set (words r)"
  then obtain u w v where t: "t = u @ w @ v" "map lower w \<in> set (words r)" by blast
  then have "(length u + length w, v) \<in> set (rests r True (length u, drop (length u) t))"
    using rests_simple[OF assms, of "length u" "drop (length u) t"] by auto
  then have "rests r True (length u, drop (length u) t) \<noteq> []" by auto
  moreover have "length u \<le> length t" using t by simp
  ultimately show "re_search True r t"
    unfolding re_search_iff by blast
qed

lemma SUFFIX_search: "re_search True SUFFIX_RE t = contains_suffix_form t"
  by (simp add: re_search_simple[OF simple_SUFFIX] words_SUFFIX contains_suffix_form_def)

text \<open>\<open>split\<close> cuts at every separator: one piece more than there are separators.\<close>

lemma length_split: "length (split sep s) = Suc (count_list s sep)"
  by (induction s) (auto split: list.splits)

lemma split_first:
  "split sep s =
     takeWhile (\<lambda>c. c \<noteq> sep) s # (if sep \<in> set s then split sep (text_after sep s) else [])"
  by (induction s) (auto simp: text_after_def split: list.splits)

lemma count_text_after:
  "sep \<in> set s \<Longrightarrow> count_list (text_after sep s) sep = count_list s sep - 1"
  by (induction s) (auto simp: text_after_def)

lemma one_comma_pieces:
  assumes "count_list s sep = 1"
  shows "split sep s = [takeWhile (\<lambda>c. c \<noteq> sep) s, text_after sep s]"
proof -
  have in_s: "sep \<in> set s"
    using assms by (metis count_list_0_iff zero_neq_one)
  then have "count_list (text_after sep s) sep = 0"
    using assms by (simp add: count_text_after)
  then have "sep \<notin> set (text_after sep s)"
    by (simp add: count_list_0_iff)
  then have "split sep (text_after sep s) = [text_after sep s]"
    by (subst split_first) (auto simp: takeWhile_eq_all_conv)
  then show ?thesis
    using in_s by (subst split_first) simp
qed

text \<open>
  What \<open>no_bad_comma\<close> does. With more than one comma it raises "too many commas, check
  if name is mangled". With exactly one comma it raises "invalid comma" unless some
  stretch of the text after the comma is a suffix form: the source tests the grammar with
  \<open>findall\<close>, an unanchored search. With no comma it passes.
\<close>

lemma no_bad_comma_search:
  "no_bad_comma name =
     (if count_list name CHR '','' > 1
        then Inl (ValueError ''too many commas, check if name is mangled'')
      else if count_list name CHR '','' = 1 \<and> \<not> contains_suffix_form (text_after CHR '','' name)
        then Inl (ValueError ''invalid comma'')
      else Inr name)"
proof (cases "count_list name CHR '','' = 1")
  case True
  then show ?thesis
    by (simp add: no_bad_comma_def one_comma_pieces SUFFIX_search)
next
  case False
  then show ?thesis
    by (simp add: no_bad_comma_def Let_def length_split)
qed

text \<open>
  A text that matches the suffix grammar contains a suffix form, so the rule accepts
  every name with one comma that the grammar accepts.
\<close>

lemma strip_blanks_decompose:
  "\<exists>u v. t = u @ strip_blanks t @ v"
proof -
  let ?blank = "\<lambda>c. c = CHR '' ''"
  let ?r = "rev (dropWhile ?blank t)"
  have "t = takeWhile ?blank t @ dropWhile ?blank t"
    by simp
  moreover have "?r = takeWhile ?blank ?r @ dropWhile ?blank ?r"
    by simp
  then have "rev ?r = rev (dropWhile ?blank ?r) @ rev (takeWhile ?blank ?r)"
    by (metis rev_append)
  then have "dropWhile ?blank t = strip_blanks t @ rev (takeWhile ?blank ?r)"
    by (simp add: strip_blanks_def)
  ultimately have "t = takeWhile ?blank t @ strip_blanks t @ rev (takeWhile ?blank ?r)"
    by simp
  then show ?thesis by blast
qed

lemma matches_contains: "matches_suffix_grammar t \<Longrightarrow> contains_suffix_form t"
  unfolding matches_suffix_grammar_def contains_suffix_form_def
  using strip_blanks_decompose[of t] by blast

lemma no_bad_comma_accepts_suffixes:
  "count_list name CHR '','' = 1 \<Longrightarrow> matches_suffix_grammar (text_after CHR '','' name) \<Longrightarrow>
     no_bad_comma name = Inr name"
  by (simp add: no_bad_comma_search matches_contains)

text \<open>
  Claim C5. The claim expects a name with exactly one comma to pass if and only if the
  text after the comma matches the suffix grammar, and to fail with "invalid comma"
  otherwise. \<open>Smith, David\<close> has exactly one comma and the text after it, \<open>David\<close>, is no
  suffix; the rule accepts the name, because \<open>David\<close> contains the form \<open>v\<close>.
\<close>

theorem no_bad_comma_accepts_non_suffix:
  "count_list ''Smith, David'' CHR '','' = 1 \<and>
   text_after CHR '','' ''Smith, David'' = '' David'' \<and>
   \<not> matches_suffix_grammar '' David'' \<and>
   no_bad_comma ''Smith, David'' = Inr ''Smith, David''"
  by code_simp

text \<open>The three names of the spec's examples; \<open>Jr.\<close> matches the grammar and \<open>Bob\<close> does not.\<close>

lemma no_bad_comma_examples:
  "no_bad_comma ''Smith, Jr.'' = Inr ''Smith, Jr.''"
  "no_bad_comma ''Smith, Jones, III'' = Inl (ValueError ''too many commas, check if name is mangled'')"
  "no_bad_comma ''Smith, Bob'' = Inl (ValueError ''invalid comma'')"
  "matches_suffix_grammar '' Jr.''"
  "\<not> matches_suffix_grammar '' Bob''"
  by code_simp+

section \<open>The phone validator\<close>

text \<open>
  Claim C6. The spec's phone grammar has a literal dot after \<open>ext\<close>; the pattern of the
  source has an unescaped dot there, which stands for any character. The string
  \<open>555-123-4567 extX 12\<close> is accepted by \<open>validate_phone\<close> and does not match the grammar
  of the spec.
\<close>

theorem phone_wildcard_after_ext:
  "validate_phone ''555-123-4567 extX 12'' = Inr ''555-123-4567 extX 12'' \<and>
   \<not> re_match False PHONE_RE_spec ''555-123-4567 extX 12''"
  by code_simp

text \<open>The three phone numbers of the spec's examples, and the empty string.\<close>

lemma validate_phone_examples:
  "validate_phone ''1-555-123-4567 ext. 12'' = Inr ''1-555-123-4567 ext. 12''"
  "validate_phone ''555-1234'' = Inl (ValueError ''invalid phone number'')"
  "validate_phone ''555-123-45678'' = Inl (ValueError ''invalid phone number'')"
  by code_simp+

lemma validate_phone_empty: "validate_phone [] = Inl (ValueError ''invalid phone number'')"
  by code_simp

section \<open>What the orchestrator returns\<close>

text \<open>
  When no field raises an unhandled exception, \<open>validate_fields\<close> returns the
  contributions of the fields in declaration order; a model without root validators then
  succeeds exactly when the report of its fields is empty.
\<close>

lemma under_Nil [simp]: "under k [] = []"
  by (simp add: under_def)

lemma errors_at_Nil [simp]: "errors_at k [] = []"
  by (simp add: errors_at_def)

lemma errors_at_append: "errors_at k (xs @ ys) = errors_at k xs @ errors_at k ys"
  by (simp add: errors_at_def)

lemma field_values_Cons: "field_values (f # fs) input = field_value f input @ field_values fs input"
  by (simp add: field_values_def)

lemma field_reports_Cons: "field_reports (f # fs) input = field_report f input @ field_reports fs input"
  by (simp add: field_reports_def)

lemma field_values_Nil [simp]: "field_values [] input = []"
  by (simp add: field_values_def)

lemma field_reports_Nil [simp]: "field_reports [] input = []"
  by (simp add: field_reports_def)

lemma validate_fields_Inr:
  "validate_fields fs input (vs, es) = Inr (vs', es') \<Longrightarrow>
     vs' = vs @ field_values fs input \<and> es' = es @ field_reports fs input"
proof (induction fs arbitrary: vs es)
  case Nil
  then show ?case by simp
next
  case (Cons f fs)
  then show ?case
    by (auto simp: field_values_Cons field_reports_Cons field_value_def field_report_def report_def
             split: option.splits result.splits dest!: Cons.IH)
qed

lemma validate_fields_total:
  "\<forall>f\<in>set fs. \<forall>v e. validate_field f v \<noteq> Raised e \<Longrightarrow>
     validate_fields fs input (vs, es) = Inr (vs @ field_values fs input, es @ field_reports fs input)"
proof (induction fs arbitrary: vs es)
  case Nil
  then show ?case by simp
next
  case (Cons f fs)
  then show ?case
    by (auto simp: field_values_Cons field_reports_Cons field_value_def field_report_def report_def
             split: option.splits result.splits)
qed

lemma run_validators_raise:
  "run_validators gs s = Inl (AttributeError a) \<Longrightarrow> \<exists>g\<in>set gs. \<exists>s'. g s' = Inl (AttributeError a)"
  by (induction gs arbitrary: s) (auto split: sum.splits)

lemma str_field_no_raise:
  "\<forall>g\<in>set gs. \<forall>s a. g s \<noteq> Inl (AttributeError a) \<Longrightarrow>
     validate_field (str_field n d gs) v \<noteq> Raised e"
  by (auto simp: validate_field_def str_field_def str_type_def
           split: raw.splits sum.splits exc.splits dest!: run_validators_raise)

lemma enum_field_no_raise: "validate_field (enum_field n ms) v \<noteq> Raised e"
  by (auto simp: validate_field_def enum_field_def enum_type_def split: raw.splits)

lemma no_newline_no_raise: "validate_str_no_newline s \<noteq> Inl (AttributeError a)"
  by (simp add: validate_str_no_newline_def)

lemma fuzzy_date_no_raise: "validate_fuzzy_date s \<noteq> Inl (AttributeError a)"
  by (simp add: validate_fuzzy_date_def)

lemma phone_no_raise: "validate_phone s \<noteq> Inl (AttributeError a)"
  by (simp add: validate_phone_def)

lemma social_no_raise: "validate_social s \<noteq> Inl (AttributeError a)"
  by (simp add: validate_social_def validate_str_no_newline_def)

lemma validate_model_no_roots:
  "m_root_validators M = [] \<Longrightarrow> validate_fields (m_fields M) input ([], []) = Inr (vs, es) \<Longrightarrow>
     validate_model M input = (if es = [] then Ok vs else Errors es)"
  by (simp add: validate_model_def)

lemma no_roots_outcome:
  assumes "m_root_validators M = []"
    and "\<forall>f\<in>set (m_fields M). \<forall>v e. validate_field f v \<noteq> Raised e"
  shows "validate_model M raw =
     (if field_reports (m_fields M) raw = [] then Ok (field_values (m_fields M) raw)
      else Errors (field_reports (m_fields M) raw))"
proof -
  have "validate_fields (m_fields M) raw ([], []) =
          Inr ([] @ field_values (m_fields M) raw, [] @ field_reports (m_fields M) raw)"
    using assms(2) by (rule validate_fields_total)
  then show ?thesis
    using assms(1) by (simp add: validate_model_no_roots)
qed

lemma no_roots_Errors:
  "m_root_validators M = [] \<Longrightarrow> validate_model M raw = Errors es \<Longrightarrow>
     es = field_reports (m_fields M) raw"
  by (cases "validate_fields (m_fields M) raw ([], [])")
     (auto simp: validate_model_def split: if_splits dest!: validate_fields_Inr)

lemma no_roots_Ok:
  "m_root_validators M = [] \<Longrightarrow> validate_model M raw = Ok vs \<Longrightarrow>
     field_reports (m_fields M) raw = [] \<and> vs = field_values (m_fields M) raw"
  by (cases "validate_fields (m_fields M) raw ([], [])")
     (auto simp: validate_model_def split: if_splits dest!: validate_fields_Inr)

lemma errors_at_under: "errors_at k (under (Key n) es) = (if n = k then under (Key n) es else [])"
  by (induction es) (auto simp: errors_at_def under_def)

lemma errors_at_field_report:
  "errors_at k (field_report f input) = (if f_name f = k then field_report f input else [])"
  by (auto simp: field_report_def errors_at_under split: option.splits) (simp_all add: errors_at_def)

lemma errors_at_field_reports:
  "errors_at k (field_reports fs input) =
     concat (map (\<lambda>f. if f_name f = k then field_report f input else []) fs)"
  by (induction fs) (simp_all add: field_reports_Cons errors_at_append errors_at_field_report)

lemma report_if: "report (if es = [] then Ok vs else Errors es) = es"
  by (simp add: report_def)

lemma f_name_str_field [simp]: "f_name (str_field n d gs) = n"
  by (simp add: str_field_def)

lemma str_field_string:
  "validate_field (str_field n d [g]) (RStr s) =
     (case g s of Inr s' \<Rightarrow> Ok (RStr s')
      | Inl e \<Rightarrow> (case e of ValueError m \<Rightarrow> Errors [([], Rule m)] | AttributeError a \<Rightarrow> Raised e))"
  by (simp add: validate_field_def str_field_def str_type_def split: sum.splits)

lemma field_report_supplied:
  "map_of raw (f_name f) = Some v \<Longrightarrow>
     field_report f raw = under (Key (f_name f)) (report (validate_field f v))"
  by (simp add: field_report_def)

lemma field_report_omitted:
  "map_of raw (f_name f) = None \<Longrightarrow>
     field_report f raw = (case f_default f of None \<Rightarrow> [([Key (f_name f)], Missing)] | Some d \<Rightarrow> [])"
  by (simp add: field_report_def)

lemma field_report_other: "f_name f \<noteq> k \<Longrightarrow> field_report f ((k, v) # raw) = field_report f raw"
  by (simp add: field_report_def)

section \<open>Party\<close>

lemma Party_outcome:
  "validate_model Party raw =
     (if field_reports (m_fields Party) raw = [] then Ok (field_values (m_fields Party) raw)
      else Errors (field_reports (m_fields Party) raw))"
proof -
  have "validate_fields (m_fields Party) raw ([], []) =
          Inr ([] @ field_values (m_fields Party) raw, [] @ field_reports (m_fields Party) raw)"
    by (rule validate_fields_total)
       (simp add: Party_def TimeScoped_fields_def str_field_no_raise no_newline_no_raise
          fuzzy_date_no_raise)
  then show ?thesis
    by (simp add: validate_model_no_roots Party_def)
qed

text \<open>
  Claim C8, amended. For every Party input, the report has "field required" at \<open>name\<close>
  when \<open>name\<close> is missing; when \<open>name\<close> is a string, the report has the no-newline error
  at \<open>name\<close> if the string contains \<open>\n\<close> or \<open>\r\<close>, and no error at \<open>name\<close> otherwise, the
  empty string included.
\<close>

theorem Party_name_rule:
  "(map_of raw ''name'' = None \<longrightarrow>
      errors_at ''name'' (report (validate_model Party raw)) = [([Key ''name''], Missing)]) \<and>
   (map_of raw ''name'' = Some (RStr s) \<longrightarrow>
      errors_at ''name'' (report (validate_model Party raw)) =
        (if newline \<in> set s \<or> carriage_return \<in> set s
         then [([Key ''name''], Rule ''must be a string without newline'')] else []))"
  unfolding Party_outcome report_if errors_at_field_reports
  by (simp add: Party_def TimeScoped_fields_def field_report_def str_field_string
        validate_str_no_newline_def under_def report_def)
   (simp add: str_field_def)

text \<open>A missing name and a name with a newline are reported at \<open>name\<close>.\<close>

theorem Party_name_rule_witness:
  "errors_at ''name'' (report (validate_model Party [])) = [([Key ''name''], Missing)] \<and>
   errors_at ''name'' (report (validate_model Party [(''name'', RStr [CHR ''a'', newline])])) =
     [([Key ''name''], Rule ''must be a string without newline'')]"
  using Party_name_rule[of "[]"] Party_name_rule[of "[(''name'', RStr [CHR ''a'', newline])]" "[CHR ''a'', newline]"]
  by simp

text \<open>
  Against claim C8 as stated: a Party whose name is the empty string is accepted, with
  both dates at their defaults.
\<close>

theorem Party_empty_name_accepted:
  "validate_model Party [(''name'', RStr [])] =
     Ok [(''start_date'', RStr []), (''end_date'', RStr []), (''name'', RStr [])]"
  by code_simp

section \<open>PersonIdBlock\<close>

lemma PersonIdBlock_outcome:
  "validate_model PersonIdBlock raw =
     (if field_reports (m_fields PersonIdBlock) raw = [] then Ok (field_values (m_fields PersonIdBlock) raw)
      else Errors (field_reports (m_fields PersonIdBlock) raw))"
  by (rule no_roots_outcome) (simp_all add: PersonIdBlock_def str_field_no_raise social_no_raise)

lemma validate_social_ok:
  "(validate_social s = Inr s) =
     (newline \<notin> set s \<and> carriage_return \<notin> set s \<and>
      \<not> startswith s ''http://'' \<and> \<not> startswith s ''https://'' \<and> \<not> startswith s ''@'')"
  by (auto simp: validate_social_def validate_str_no_newline_def)

lemma validate_social_cases:
  "validate_social s = Inr s \<or> (\<exists>m. validate_social s = Inl (ValueError m))"
  by (auto simp: validate_social_def validate_str_no_newline_def)

text \<open>
  Claim C9. For each of \<open>twitter\<close>, \<open>youtube\<close>, \<open>instagram\<close> and \<open>facebook\<close>: a supplied
  string raises no error at its field if and only if it contains no newline and does not
  start with \<open>http://\<close>, \<open>https://\<close> or \<open>@\<close>.
\<close>

theorem validate_social_rule:
  assumes "k \<in> set [''twitter'', ''youtube'', ''instagram'', ''facebook'']"
    and "map_of raw k = Some (RStr s)"
  shows "(errors_at k (report (validate_model PersonIdBlock raw)) = []) =
     (newline \<notin> set s \<and> carriage_return \<notin> set s \<and>
      \<not> startswith s ''http://'' \<and> \<not> startswith s ''https://'' \<and> \<not> startswith s ''@'')"
proof -
  let ?f = "str_field k (Some (RStr [])) [validate_social]"
  have 1: "errors_at k (report (validate_model PersonIdBlock raw)) = field_report ?f raw"
    unfolding PersonIdBlock_outcome report_if errors_at_field_reports
    using assms(1) by (auto simp: PersonIdBlock_def)
  have 2: "field_report ?f raw = under (Key k) (report (validate_field ?f (RStr s)))"
    using assms(2) by (simp add: field_report_supplied)
  show ?thesis
    unfolding 1 2 str_field_string validate_social_ok[symmetric]
    using validate_social_cases[of s]
    by (auto simp: under_def report_def)
qed

text \<open>\<open>twitter = "@jdoe"\<close> fails and \<open>twitter = "jdoe"\<close> passes.\<close>

theorem validate_social_rule_witness:
  "(errors_at ''twitter'' (report (validate_model PersonIdBlock [(''twitter'', RStr ''@jdoe'')])) \<noteq> []) \<and>
   (errors_at ''twitter'' (report (validate_model PersonIdBlock [(''twitter'', RStr ''jdoe'')])) = [])"
  using validate_social_rule[of "''twitter''" "[(''twitter'', RStr ''@jdoe'')]" "''@jdoe''"]
        validate_social_rule[of "''twitter''" "[(''twitter'', RStr ''jdoe'')]" "''jdoe''"]
  by (simp add: startswith_def newline_def carriage_return_def)

section \<open>ContactDetail\<close>

lemma ContactDetail_outcome:
  "validate_model ContactDetail raw =
     (if field_reports (m_fields ContactDetail) raw = [] then Ok (field_values (m_fields ContactDetail) raw)
      else Errors (field_reports (m_fields ContactDetail) raw))"
  by (rule no_roots_outcome)
     (simp_all add: ContactDetail_def str_field_no_raise phone_no_raise no_newline_no_raise
        enum_field_no_raise)

text \<open>
  Claim C4, amended. For \<open>voice\<close> and for \<open>fax\<close>: a field supplied as the empty string is
  run through the phone check and reported with "invalid phone number"; the check is
  skipped, and nothing is reported at the field, only when the field is omitted.
\<close>

theorem phone_check_on_supplied_empty:
  assumes "k \<in> set [''voice'', ''fax'']"
  shows "(map_of raw k = Some (RStr []) \<longrightarrow>
      errors_at k (report (validate_model ContactDetail raw)) = [([Key k], Rule ''invalid phone number'')]) \<and>
   (map_of raw k = None \<longrightarrow> errors_at k (report (validate_model ContactDetail raw)) = [])"
proof -
  let ?f = "str_field k (Some (RStr [])) [validate_phone]"
  have 1: "errors_at k (report (validate_model ContactDetail raw)) = field_report ?f raw"
    unfolding ContactDetail_outcome report_if errors_at_field_reports
    using assms by (auto simp: ContactDetail_def enum_field_def)
  show ?thesis
    unfolding 1
    by (simp add: field_report_supplied field_report_omitted str_field_string validate_phone_empty
          under_def report_def)
       (simp add: str_field_def)
qed

text \<open>A supplied empty \<open>voice\<close> is reported; an omitted \<open>fax\<close> is not.\<close>

theorem phone_check_on_supplied_empty_witness:
  "errors_at ''voice''
     (report (validate_model ContactDetail
        [(''note'', RStr ''District Office''), (''voice'', RStr [])])) =
     [([Key ''voice''], Rule ''invalid phone number'')] \<and>
   errors_at ''fax'' (report (validate_model ContactDetail [(''note'', RStr ''District Office'')])) = []"
  using phone_check_on_supplied_empty[of "''voice''" "[(''note'', RStr ''District Office''), (''voice'', RStr [])]"]
        phone_check_on_supplied_empty[of "''fax''" "[(''note'', RStr ''District Office'')]"]
  by simp

text \<open>
  Against claim C4 as stated: a ContactDetail whose other fields are valid fails
  validation when \<open>voice\<close>, or \<open>fax\<close>, is supplied as the empty string.
\<close>

theorem supplied_empty_phone_fails:
  "validate_model ContactDetail [(''note'', RStr ''District Office''), (''voice'', RStr [])] =
     Errors [([Key ''voice''], Rule ''invalid phone number'')] \<and>
   validate_model ContactDetail [(''note'', RStr ''District Office''), (''fax'', RStr [])] =
     Errors [([Key ''fax''], Rule ''invalid phone number'')]"
  by code_simp

lemma f_name_enum_field [simp]: "f_name (enum_field n ms) = n"
  by (simp add: enum_field_def)

lemma f_default_str_field [simp]: "f_default (str_field n d gs) = d"
  by (simp add: str_field_def)

lemma field_value_omitted:
  "map_of raw (f_name f) = None \<Longrightarrow> f_default f = Some d \<Longrightarrow> field_value f raw = [(f_name f, d)]"
  by (simp add: field_value_def)

lemma map_of_field_value_other: "f_name f \<noteq> k \<Longrightarrow> map_of (field_value f raw) k = None"
  by (simp add: field_value_def split: option.splits result.splits)

lemma phone_field_empty:
  "field_report (str_field k d [validate_phone]) ((k, RStr []) # raw) =
     [([Key k], Rule ''invalid phone number'')]"
  by (simp add: field_report_def str_field_string validate_phone_empty report_def under_def)

text \<open>
  Claim C10. For \<open>voice\<close> and for \<open>fax\<close>: when the field is omitted and validation
  succeeds, the validated record holds the empty string at that field; supplying that
  same empty string explicitly makes validation of the otherwise unchanged input fail
  with "invalid phone number" at the field. Omission and explicit supply of the same
  resulting value differ in outcome.
\<close>

theorem omitted_and_supplied_phone_differ:
  assumes "k \<in> set [''voice'', ''fax'']"
    and "map_of raw k = None"
    and "validate_model ContactDetail raw = Ok vs"
  shows "map_of vs k = Some (RStr []) \<and>
         validate_model ContactDetail ((k, RStr []) # raw) =
           Errors [([Key k], Rule ''invalid phone number'')]"
proof -
  let ?note = "enum_field ''note'' (map OfficeType_value OfficeType_members)"
  let ?address = "str_field ''address'' (Some (RStr [])) [validate_str_no_newline]"
  let ?voice = "str_field ''voice'' (Some (RStr [])) [validate_phone]"
  let ?fax = "str_field ''fax'' (Some (RStr [])) [validate_phone]"
  have fields: "m_fields ContactDetail = [?note, ?address, ?voice, ?fax]"
    by (simp add: ContactDetail_def)
  have roots: "m_root_validators ContactDetail = []"
    by (simp add: ContactDetail_def)
  from no_roots_Ok[OF roots assms(3)]
  have clean: "field_report ?note raw = []" "field_report ?address raw = []"
      "field_report ?voice raw = []" "field_report ?fax raw = []"
    and vs: "vs = field_value ?note raw @ field_value ?address raw @ field_value ?voice raw
                    @ field_value ?fax raw"
    by (simp_all add: fields field_reports_Cons field_values_Cons)
  from assms(1) have "k = ''voice'' \<or> k = ''fax''" by simp
  then show ?thesis
  proof
    assume k: "k = ''voice''"
    have "field_value ?voice raw = [(''voice'', RStr [])]"
      using assms(2) k by (simp add: field_value_omitted)
    then have 1: "map_of vs k = Some (RStr [])"
      by (simp add: vs k map_of_field_value_other map_add_def)
    have "field_reports (m_fields ContactDetail) ((k, RStr []) # raw) =
            [([Key k], Rule ''invalid phone number'')]"
      unfolding fields field_reports_Cons k
      by (simp add: field_report_other clean phone_field_empty)
    then have 2: "validate_model ContactDetail ((k, RStr []) # raw) =
            Errors [([Key k], Rule ''invalid phone number'')]"
      by (simp add: ContactDetail_outcome)
    from 1 2 show ?thesis ..
  next
    assume k: "k = ''fax''"
    have "field_value ?fax raw = [(''fax'', RStr [])]"
      using assms(2) k by (simp add: field_value_omitted)
    then have 1: "map_of vs k = Some (RStr [])"
      by (simp add: vs k map_of_field_value_other map_add_def)
    have "field_reports (m_fields ContactDetail) ((k, RStr []) # raw) =
            [([Key k], Rule ''invalid phone number'')]"
      unfolding fields field_reports_Cons k
      by (simp add: field_report_other clean phone_field_empty)
    then have 2: "validate_model ContactDetail ((k, RStr []) # raw) =
            Errors [([Key k], Rule ''invalid phone number'')]"
      by (simp add: ContactDetail_outcome)
    from 1 2 show ?thesis ..
  qed
qed

text \<open>A contact detail with only its note: valid as it is, invalid with \<open>voice = ""\<close> added.\<close>

theorem omitted_and_supplied_phone_differ_witness:
  "validate_model ContactDetail [(''note'', RStr ''District Office'')] =
     Ok [(''note'', RStr ''District Office''), (''address'', RStr []),
         (''voice'', RStr []), (''fax'', RStr [])] \<and>
   validate_model ContactDetail [(''voice'', RStr []), (''note'', RStr ''District Office'')] =
     Errors [([Key ''voice''], Rule ''invalid phone number'')]"
proof -
  have ok: "validate_model ContactDetail [(''note'', RStr ''District Office'')] =
     Ok [(''note'', RStr ''District Office''), (''address'', RStr []),
         (''voice'', RStr []), (''fax'', RStr [])]"
    by code_simp
  have omitted: "map_of [(''note'', RStr ''District Office'')] ''voice'' = None"
    by simp
  have k: "''voice'' \<in> set [''voice'', ''fax'']"
    by simp
  from omitted_and_supplied_phone_differ[OF k omitted ok] ok show ?thesis
    by simp
qed

section \<open>Role\<close>

text \<open>
  \<open>OfficeType\<close> has no member \<open>GOVERNOR\<close>: building the tuple of the rule raises
  \<open>AttributeError\<close> before the rule looks at \<open>type\<close> or \<open>end_date\<close>.
\<close>

lemma check_executives_raises:
  "check_executives_have_end_date values = Inl (AttributeError ''GOVERNOR'')"
  by (simp add: check_executives_have_end_date_def OfficeType_attr_def)

text \<open>
  Claim C1. A Role of type \<open>governor\<close> is validated with \<open>end_date = "2024-01-01"\<close> and
  without an \<open>end_date\<close>. The claim expects the first to pass the rule and the second to
  fail with "end_date is required for executive roles"; in both cases the rule raises
  \<open>AttributeError\<close> and validation ends unhandled.
\<close>

theorem Role_governor_raises:
  "validate_model (Role lenient)
     [(''type'', RStr ''governor''), (''district'', RStr []),
      (''jurisdiction'', RStr ''ocd-jurisdiction/country:us/state:nc/government''),
      (''end_reason'', RStr []), (''end_date'', RStr ''2024-01-01'')]
     = Raised (AttributeError ''GOVERNOR'') \<and>
   validate_model (Role lenient)
     [(''type'', RStr ''governor''), (''district'', RStr []),
      (''jurisdiction'', RStr ''ocd-jurisdiction/country:us/state:nc/government''),
      (''end_reason'', RStr [])]
     = Raised (AttributeError ''GOVERNOR'')"
  by code_simp

text \<open>
  Claim C2. The claim expects every raw Role mapping to yield a validated record or an
  error report; every raw Role mapping ends validation with an unhandled exception.
\<close>

theorem Role_validation_always_raises:
  "\<exists>e. validate_model (Role c) raw = Raised e"
  by (cases "validate_fields (m_fields (Role c)) raw ([], [])")
     (auto simp: validate_model_def Role_def check_executives_raises)


section \<open>Person\<close>

lemma f_name_list_field [simp]: "f_name (list_field n d item) = n"
  by (simp add: list_field_def)

lemma list_field_empty: "validate_field (list_field n d item) (RList []) = Ok (RList [])"
  by (simp add: validate_field_def list_field_def list_type_def)

lemma Person_errors_at:
  assumes "k = ''party'' \<or> k = ''roles''"
  shows "\<exists>item. errors_at k (field_reports (m_fields (Person c)) raw) = field_report (list_field k None item) raw"
proof -
  have "errors_at ''party'' (field_reports (m_fields (Person c)) raw) =
          field_report (list_field ''party'' None (model_type (validate_model Party))) raw"
    unfolding errors_at_field_reports by (simp add: Person_def)
  moreover have "errors_at ''roles'' (field_reports (m_fields (Person c)) raw) =
          field_report (list_field ''roles'' None (model_type (validate_model (Role c)))) raw"
    unfolding errors_at_field_reports by (simp add: Person_def)
  ultimately show ?thesis
    using assms by blast
qed

text \<open>
  Claim C3, amended. For \<open>party\<close> and for \<open>roles\<close>: when the field is missing, validation
  never succeeds and every report it returns has "field required" at the field; when
  the field is supplied as the empty sequence, a report has no error at the field.
\<close>

theorem Person_party_roles_required:
  assumes "k \<in> set [''party'', ''roles'']"
  shows "(map_of raw k = None \<longrightarrow>
            (\<forall>vs. validate_model (Person c) raw \<noteq> Ok vs) \<and>
            (\<forall>es. validate_model (Person c) raw = Errors es \<longrightarrow>
                  errors_at k es = [([Key k], Missing)])) \<and>
         (map_of raw k = Some (RList []) \<longrightarrow>
            (\<forall>es. validate_model (Person c) raw = Errors es \<longrightarrow> errors_at k es = []))"
proof -
  have roots: "m_root_validators (Person c) = []"
    by (simp add: Person_def)
  have k: "k = ''party'' \<or> k = ''roles''"
    using assms by simp
  obtain item where at:
    "errors_at k (field_reports (m_fields (Person c)) raw) = field_report (list_field k None item) raw"
    using Person_errors_at[OF k] by blast
  have missing: "errors_at k (field_reports (m_fields (Person c)) raw) = [([Key k], Missing)]"
    if "map_of raw k = None"
    using that by (simp add: at field_report_omitted) (simp add: list_field_def)
  have empty: "errors_at k (field_reports (m_fields (Person c)) raw) = []"
    if "map_of raw k = Some (RList [])"
    using that by (simp add: at field_report_supplied list_field_empty report_def)
  have not_ok: "validate_model (Person c) raw \<noteq> Ok vs" if "map_of raw k = None" for vs
  proof
    assume "validate_model (Person c) raw = Ok vs"
    then have "field_reports (m_fields (Person c)) raw = []"
      using no_roots_Ok[OF roots] by blast
    then show False
      using missing[OF that] by simp
  qed
  have errs: "es = field_reports (m_fields (Person c)) raw"
    if "validate_model (Person c) raw = Errors es" for es
    using that by (rule no_roots_Errors[OF roots])
  show ?thesis
  proof (intro conjI impI allI)
    fix vs assume "map_of raw k = None"
    then show "validate_model (Person c) raw \<noteq> Ok vs" by (rule not_ok)
  next
    fix es assume "map_of raw k = None" "validate_model (Person c) raw = Errors es"
    then show "errors_at k es = [([Key k], Missing)]"
      using missing errs by simp
  next
    fix es assume "map_of raw k = Some (RList [])" "validate_model (Person c) raw = Errors es"
    then show "errors_at k es = []"
      using empty errs by simp
  qed
qed

text \<open>
  A Person without \<open>party\<close> is reported at \<open>party\<close>; a Person with an empty \<open>party\<close> and
  without \<open>roles\<close> is reported at \<open>roles\<close> only.
\<close>

theorem Person_party_roles_required_witness:
  "validate_model (Person lenient)
     [(''id'', RStr ''ocd-person/0a1b2c3d-4e5f-4a6b-8c7d-9e0f1a2b3c4d''), (''name'', RStr ''Jane Doe''), (''roles'', RList [])] =
     Errors [([Key ''party''], Missing)] \<and>
   errors_at ''party'' [([Key ''party''], Missing)] = [([Key ''party''], Missing)] \<and>
   validate_model (Person lenient)
     [(''id'', RStr ''ocd-person/0a1b2c3d-4e5f-4a6b-8c7d-9e0f1a2b3c4d''), (''name'', RStr ''Jane Doe''), (''party'', RList [])] =
     Errors [([Key ''roles''], Missing)] \<and>
   errors_at ''party'' [([Key ''roles''], Missing)] = []"
proof -
  let ?raw0 = "[(''id'', RStr ''ocd-person/0a1b2c3d-4e5f-4a6b-8c7d-9e0f1a2b3c4d''), (''name'', RStr ''Jane Doe''), (''roles'', RList [])]"
  let ?raw1 = "[(''id'', RStr ''ocd-person/0a1b2c3d-4e5f-4a6b-8c7d-9e0f1a2b3c4d''), (''name'', RStr ''Jane Doe''), (''party'', RList [])]"
  have e0: "validate_model (Person lenient) ?raw0 = Errors [([Key ''party''], Missing)]"
    by code_simp
  have e1: "validate_model (Person lenient) ?raw1 = Errors [([Key ''roles''], Missing)]"
    by code_simp
  have k: "''party'' \<in> set [''party'', ''roles'']"
    by simp
  have m0: "map_of ?raw0 ''party'' = None" and m1: "map_of ?raw1 ''party'' = Some (RList [])"
    by simp_all
  from Person_party_roles_required[OF k, of ?raw0 lenient] m0 e0
  have "errors_at ''party'' [([Key ''party''], Missing)] = [([Key ''party''], Missing)]"
    by simp
  moreover from Person_party_roles_required[OF k, of ?raw1 lenient] m1 e1
  have "errors_at ''party'' [([Key ''roles''], Missing)] = []"
    by simp
  ultimately show ?thesis
    using e0 e1 by simp
qed

text \<open>
  Against claim C3 as stated: a Person whose \<open>party\<close> and \<open>roles\<close> are empty sequences
  is accepted.
\<close>

theorem Person_without_party_or_role_accepted:
  "validate_model (Person lenient)
     [(''id'', RStr ''ocd-person/0a1b2c3d-4e5f-4a6b-8c7d-9e0f1a2b3c4d''), (''name'', RStr ''Jane Doe''),
      (''party'', RList []), (''roles'', RList [])] =
   Ok [(''id'', RStr ''ocd-person/0a1b2c3d-4e5f-4a6b-8c7d-9e0f1a2b3c4d''), (''name'', RStr ''Jane Doe''),
       (''given_name'', RStr []), (''family_name'', RStr []), (''middle_name'', RStr []),
       (''suffix'', RStr []), (''gender'', RStr []), (''email'', RStr []),
       (''biography'', RStr []), (''birth_date'', RStr []), (''death_date'', RStr []),
       (''image'', RStr []), (''party'', RList []), (''roles'', RList []),
       (''contact_details'', RList []), (''links'', RList []), (''other_names'', RList []),
       (''ids'', RNone), (''other_identifiers'', RList []), (''sources'', RList []),
       (''extras'', RDict [])]"
  by code_simp

text \<open>
  A value that is not a mapping is converted with \<open>dict(value)\<close>: an empty list for \<open>ids\<close>
  is a PersonIdBlock with every handle at its default, and an empty list for \<open>extras\<close> is
  an empty mapping.
\<close>

lemma Person_coerces_empty_sequences:
  "validate_model (Person lenient)
     [(''id'', RStr ''ocd-person/0a1b2c3d-4e5f-4a6b-8c7d-9e0f1a2b3c4d''),
      (''name'', RStr ''Jane Doe''), (''party'', RList []), (''roles'', RList []),
      (''ids'', RList []), (''extras'', RList [])] =
   Ok [(''id'', RStr ''ocd-person/0a1b2c3d-4e5f-4a6b-8c7d-9e0f1a2b3c4d''),
       (''name'', RStr ''Jane Doe''),
       (''given_name'', RStr []), (''family_name'', RStr []), (''middle_name'', RStr []),
       (''suffix'', RStr []), (''gender'', RStr []), (''email'', RStr []),
       (''biography'', RStr []), (''birth_date'', RStr []), (''death_date'', RStr []),
       (''image'', RStr []), (''party'', RList []), (''roles'', RList []),
       (''contact_details'', RList []), (''links'', RList []), (''other_names'', RList []),
       (''ids'', RDict [(RStr ''twitter'', RStr []), (RStr ''youtube'', RStr []),
                        (RStr ''instagram'', RStr []), (RStr ''facebook'', RStr [])]),
       (''other_identifiers'', RList []), (''sources'', RList []),
       (''extras'', RDict [])]"
  by code_simp

end
